theory Spec2Isabelle
  imports Main "HOL-Library.Sublist" "HOL-Library.Multiset"
begin

section \<open>Python strings\<close>

text \<open>
  A Python \<^verbatim>\<open>str\<close> is a sequence of Unicode code points; slicing and \<^verbatim>\<open>in\<close> count
  code points. A character is its code point, a string the list of them.
\<close>

type_synonym pychar = nat
type_synonym pystr = "pychar list"

text \<open>ASCII literals of the source, written as Isabelle strings.\<close>

definition ustr :: "string \<Rightarrow> pystr" where
  "ustr s = map of_char s"

text \<open>\<^verbatim>\<open>str.isspace\<close> on one character: the code points that \<^verbatim>\<open>str.strip()\<close> removes.\<close>

definition py_isspace :: "pychar \<Rightarrow> bool" where
  "py_isspace c =
     ((9 \<le> c \<and> c \<le> 13) \<or> (28 \<le> c \<and> c \<le> 32) \<or> c = 133 \<or> c = 160 \<or> c = 5760
      \<or> (8192 \<le> c \<and> c \<le> 8202) \<or> c = 8232 \<or> c = 8233 \<or> c = 8239 \<or> c = 8287
      \<or> c = 12288)"

text \<open>\<^verbatim>\<open>s.strip()\<close>: leading and trailing whitespace removed.\<close>

definition py_strip :: "pystr \<Rightarrow> pystr" where
  "py_strip s = rev (dropWhile py_isspace (rev (dropWhile py_isspace s)))"

text \<open>
  The line boundaries of \<^verbatim>\<open>str.splitlines()\<close>: LF, VT, FF, CR, FS, GS, RS, NEL, LS, PS;
  CR followed by LF is one boundary.
\<close>

definition py_linebreak :: "pychar \<Rightarrow> bool" where
  "py_linebreak c =
     ((10 \<le> c \<and> c \<le> 13) \<or> (28 \<le> c \<and> c \<le> 30) \<or> c = 133 \<or> c = 8232 \<or> c = 8233)"

text \<open>
  \<^verbatim>\<open>s.splitlines()\<close>. The first argument holds the current line, reversed. A line is
  emitted at each boundary; the text after the last boundary is a line only when it is
  not empty, so \<^verbatim>\<open>"a\n".splitlines() == ["a"]\<close> and \<^verbatim>\<open>"".splitlines() == []\<close>.
\<close>

fun splitlines_from :: "pystr \<Rightarrow> pystr \<Rightarrow> pystr list" where
  "splitlines_from cur [] = (if cur = [] then [] else [rev cur])"
| "splitlines_from cur [c] =
     (if py_linebreak c then [rev cur] else [rev (c # cur)])"
| "splitlines_from cur (c # d # cs) =
     (if c = 13 \<and> d = 10 then rev cur # splitlines_from [] cs
      else if py_linebreak c then rev cur # splitlines_from [] (d # cs)
      else splitlines_from (c # cur) (d # cs))"

definition py_splitlines :: "pystr \<Rightarrow> pystr list" where
  "py_splitlines s = splitlines_from [] s"

text \<open>\<^verbatim>\<open>sub in s\<close> on strings: \<open>sub\<close> occurs in \<open>s\<close> as a contiguous run.\<close>

fun py_in :: "pystr \<Rightarrow> pystr \<Rightarrow> bool" where
  "py_in sub [] = (sub = [])"
| "py_in sub (c # cs) = (prefix sub (c # cs) \<or> py_in sub cs)"

section \<open>Errors\<close>

text \<open>
  The exceptions the program can raise and does not catch. \<^verbatim>\<open>RequestException\<close> is
  caught where it arises (lines 61 and 150), so it shows as an absent response, not here.
\<close>

datatype error =
    AttributeError
  | IndexError
  | ValueError
  | StopIteration
  | FileNotFoundError
  | OSError

text \<open>\<^verbatim>\<open>xs[1]\<close>: the second element, \<^verbatim>\<open>IndexError\<close> when there is none.\<close>

definition second :: "'a list \<Rightarrow> error + 'a" where
  "second xs = (case xs of _ # x # _ \<Rightarrow> Inr x | _ \<Rightarrow> Inl IndexError)"

section \<open>Requests\<close>

definition base_url :: pystr where
  "base_url = ustr ''https://movie.douban.com/top250''"

text \<open>A \<^verbatim>\<open>dict\<close> literal is the association list of its entries.\<close>

definition get_params :: "int \<Rightarrow> (pystr \<times> int) list" where
  "get_params page = [(ustr ''start'', page * 25)]"

definition get_headers :: "(pystr \<times> pystr) list" where
  "get_headers =
     [(ustr ''User-Agent'',
       ustr ''Mozilla/5.0 (Windows NT 10.0; Win64; x64) AppleWebKit/537.36 (KHTML, like Gecko) Chrome/137.0.0.0 Safari/537.36 Edg/137.0.0.0'')]"

text \<open>
  One call of \<^verbatim>\<open>requests.get\<close>: the URL (a poster URL read from an attribute may be
  \<^verbatim>\<open>None\<close>), the query parameters and the headers.
\<close>

record request =
  url :: "pystr option"
  params :: "(pystr \<times> int) list"
  headers :: "(pystr \<times> pystr) list"

text \<open>The request of line 58 for a page.\<close>

definition page_request :: "int \<Rightarrow> request" where
  "page_request page =
     \<lparr>url = Some base_url, params = get_params page, headers = get_headers\<rparr>"

section \<open>Item blocks\<close>

text \<open>
  An item block is the parsed fragment \<^verbatim>\<open><div class="item">\<close>. The program reads it
  only through the lookups below, and each lookup can come back empty: \<^verbatim>\<open>find\<close>
  returns \<^verbatim>\<open>None\<close> when the element is absent, \<^verbatim>\<open>get\<close> returns \<^verbatim>\<open>None\<close> when the
  attribute is absent.
\<close>

text \<open>\<^verbatim>\<open><div class="hd">\<close>: the text of its first \<^verbatim>\<open><span class="title">\<close>, if any.\<close>

datatype hd_div = HdDiv (title_span: "pystr option")

text \<open>\<^verbatim>\<open><div class="bd">\<close>: the text of its first \<^verbatim>\<open><p>\<close>, if any.\<close>

datatype bd_div = BdDiv (first_p: "pystr option")

text \<open>\<^verbatim>\<open><img>\<close>: its \<^verbatim>\<open>alt\<close> and \<^verbatim>\<open>src\<close> attributes.\<close>

datatype img_tag = ImgTag (alt: "pystr option") (src: "pystr option")

text \<open>\<^verbatim>\<open><div class="pic">\<close>: its first \<^verbatim>\<open><img>\<close>, if any.\<close>

datatype pic_div = PicDiv (img: "img_tag option")

record item =
  div_hd :: "hd_div option"
  div_bd :: "bd_div option"
  div_pic :: "pic_div option"

text \<open>
  A parsed document, as far as the program looks at it: the result of
  \<^verbatim>\<open>soup.find_all("div", class_="item")\<close>, in document order.
\<close>

datatype soup = Soup (find_all_item: "item list")

text \<open>
  \<^verbatim>\<open>item.find("div", class_="bd").find("p").get_text()\<close>. Calling \<^verbatim>\<open>find\<close> or
  \<^verbatim>\<open>get_text\<close> on \<^verbatim>\<open>None\<close> raises \<^verbatim>\<open>AttributeError\<close>.
\<close>

definition bd_p_text :: "item \<Rightarrow> error + pystr" where
  "bd_p_text it =
     (case div_bd it of
        None \<Rightarrow> Inl AttributeError
      | Some bd \<Rightarrow> (case first_p bd of None \<Rightarrow> Inl AttributeError | Some t \<Rightarrow> Inr t))"

text \<open>\<^verbatim>\<open>item.find("div", class_="hd").find("span", class_="title").get_text()\<close>\<close>

definition hd_title_text :: "item \<Rightarrow> error + pystr" where
  "hd_title_text it =
     (case div_hd it of
        None \<Rightarrow> Inl AttributeError
      | Some h \<Rightarrow> (case title_span h of None \<Rightarrow> Inl AttributeError | Some t \<Rightarrow> Inr t))"

text \<open>\<^verbatim>\<open>item.find("div", class_="pic").find("img")\<close>, then \<^verbatim>\<open>img.get\<close> on the result.\<close>

definition pic_img :: "item \<Rightarrow> error + img_tag" where
  "pic_img it =
     (case div_pic it of
        None \<Rightarrow> Inl AttributeError
      | Some p \<Rightarrow> (case img p of None \<Rightarrow> Inl AttributeError | Some i \<Rightarrow> Inr i))"

section \<open>Page filter\<close>

text \<open>The nationality marker of line 78, two code points (U+4E2D, U+56FD).\<close>

definition marker :: pystr where
  "marker = [20013, 22269]"

text \<open>
  The loop of lines 76 to 80. The first argument is \<^verbatim>\<open>chinese_items\<close> so far; an item
  whose paragraph lookup fails ends the loop with the exception.
\<close>

fun chinese_items_loop :: "item list \<Rightarrow> item list \<Rightarrow> error + item list" where
  "chinese_items_loop chinese_items [] = Inr chinese_items"
| "chinese_items_loop chinese_items (it # items) =
     (case bd_p_text it of
        Inl e \<Rightarrow> Inl e
      | Inr t \<Rightarrow>
          chinese_items_loop
            (if py_in marker t then chinese_items @ [it] else chinese_items) items)"

definition get_chinese_items :: "soup \<Rightarrow> error + item list" where
  "get_chinese_items sp = chinese_items_loop [] (find_all_item sp)"

section \<open>Field extractor\<close>

text \<open>
  The year expression of line 95 on the paragraph text:
  \<^verbatim>\<open>.strip().splitlines()[1].strip()[:4]\<close>.
\<close>

definition year_of_text :: "pystr \<Rightarrow> error + pystr" where
  "year_of_text t =
     (case second (py_splitlines (py_strip t)) of
        Inl e \<Rightarrow> Inl e
      | Inr line \<Rightarrow> Inr (take 4 (py_strip line)))"

text \<open>One pass of the loop body of lines 94 and 95: the name is read before the year.\<close>

definition movie_info :: "item \<Rightarrow> error + pystr \<times> pystr" where
  "movie_info it =
     (case hd_title_text it of
        Inl e \<Rightarrow> Inl e
      | Inr name \<Rightarrow>
          (case bd_p_text it of
             Inl e \<Rightarrow> Inl e
           | Inr t \<Rightarrow> (case year_of_text t of Inl e \<Rightarrow> Inl e | Inr year \<Rightarrow> Inr (name, year))))"

fun movie_infos_loop ::
    "(pystr \<times> pystr) list \<Rightarrow> item list \<Rightarrow> error + (pystr \<times> pystr) list" where
  "movie_infos_loop movie_infos [] = Inr movie_infos"
| "movie_infos_loop movie_infos (it # items) =
     (case movie_info it of
        Inl e \<Rightarrow> Inl e
      | Inr p \<Rightarrow> movie_infos_loop (movie_infos @ [p]) items)"

definition get_movie_infos :: "item list \<Rightarrow> error + (pystr \<times> pystr) list" where
  "get_movie_infos items = movie_infos_loop [] items"

text \<open>
  One pass of the loop body of lines 111 to 113. \<^verbatim>\<open>img.get\<close> does not raise: a missing
  attribute gives \<^verbatim>\<open>None\<close>, which goes into the tuple.
\<close>

definition movie_poster :: "item \<Rightarrow> error + pystr option \<times> pystr option" where
  "movie_poster it =
     (case pic_img it of Inl e \<Rightarrow> Inl e | Inr i \<Rightarrow> Inr (alt i, src i))"

fun movie_posters_loop ::
    "(pystr option \<times> pystr option) list \<Rightarrow> item list
       \<Rightarrow> error + (pystr option \<times> pystr option) list" where
  "movie_posters_loop movie_posters [] = Inr movie_posters"
| "movie_posters_loop movie_posters (it # items) =
     (case movie_poster it of
        Inl e \<Rightarrow> Inl e
      | Inr p \<Rightarrow> movie_posters_loop (movie_posters @ [p]) items)"

definition get_movie_posters ::
    "item list \<Rightarrow> error + (pystr option \<times> pystr option) list" where
  "get_movie_posters items = movie_posters_loop [] items"

section \<open>The outside world\<close>

type_synonym bytes = string

text \<open>
  A response that passed \<^verbatim>\<open>raise_for_status\<close>: what \<^verbatim>\<open>BeautifulSoup\<close> makes of its
  text, and its raw content.
\<close>

record response =
  text_soup :: soup
  content :: bytes

text \<open>
  What the program cannot decide: the answer to a request, which may depend on the calls
  made before it (\<open>None\<close> when \<^verbatim>\<open>requests.get\<close> or \<^verbatim>\<open>raise_for_status\<close> raises
  \<^verbatim>\<open>RequestException\<close>), and whether a poster file can be opened for writing.
\<close>

record env =
  http_get :: "request list \<Rightarrow> request \<Rightarrow> response option"
  can_open :: "pystr \<Rightarrow> bool"

text \<open>
  The lines the program logs: the failed page fetch with its page number (line 62), the
  failed poster download with its URL (line 151), the page summary with the page number
  plus one and the number of retained items (line 168).
\<close>

datatype log_record =
    Error_page int
  | Error_poster "pystr option"
  | Info_page int nat

text \<open>
  The state the program changes: the tabular file as the rows \<^verbatim>\<open>csv\<close> wrote to it and
  reads from it (\<open>None\<close> while the file does not exist), the poster files by path, the
  log, the calls of \<^verbatim>\<open>requests.get\<close> in order, the number of pauses taken, and the
  plotted series.
\<close>

record world =
  douban_csv :: "pystr list list option"
  film_img :: "pystr \<rightharpoonup> bytes"
  douban_log :: "log_record list"
  sent :: "request list"
  slept :: nat
  douban_png :: "(int list \<times> nat list) option"

text \<open>\<^verbatim>\<open>requests.get\<close> then \<^verbatim>\<open>raise_for_status\<close>; without a URL the call raises.\<close>

definition requests_get :: "env \<Rightarrow> world \<Rightarrow> request \<Rightarrow> response option" where
  "requests_get ev s req =
     (case url req of None \<Rightarrow> None | Some _ \<Rightarrow> http_get ev (sent s) req)"

section \<open>HTTP fetcher\<close>

definition get_soup :: "env \<Rightarrow> int \<Rightarrow> world \<Rightarrow> soup option \<times> world" where
  "get_soup ev page s =
     (let s1 = s\<lparr>sent := sent s @ [page_request page]\<rparr> in
      case requests_get ev s (page_request page) of
        None \<Rightarrow> (None, s1\<lparr>douban_log := douban_log s1 @ [Error_page page]\<rparr>)
      | Some r \<Rightarrow> (Some (text_soup r), s1))"

section \<open>Persistence sink\<close>

text \<open>The header row of line 122.\<close>

definition csv_header :: "pystr list" where
  "csv_header =
     [[30005, 24433, 21517, 31216], [19978, 26144, 24180, 20221], [28023, 25253, 38142, 25509]]"

definition write_csv_header :: "world \<Rightarrow> world" where
  "write_csv_header s = s\<lparr>douban_csv := Some [csv_header]\<rparr>"

text \<open>\<^verbatim>\<open>csv\<close> writes \<^verbatim>\<open>None\<close> as the empty field.\<close>

definition csv_str :: "pystr option \<Rightarrow> pystr" where
  "csv_str v = (case v of None \<Rightarrow> [] | Some t \<Rightarrow> t)"

text \<open>The loop of lines 134 and 135: \<^verbatim>\<open>zip\<close> ends with the shorter list.\<close>

fun csv_rows ::
    "(pystr \<times> pystr) list \<Rightarrow> (pystr option \<times> pystr option) list \<Rightarrow> pystr list list" where
  "csv_rows ((name, year) # movie_infos) ((_, poster_url) # movie_posters) =
     [name, year, csv_str poster_url] # csv_rows movie_infos movie_posters"
| "csv_rows _ _ = []"

text \<open>Mode \<^verbatim>\<open>"a"\<close> creates the file when it does not exist.\<close>

definition write_to_csv ::
    "(pystr \<times> pystr) list \<Rightarrow> (pystr option \<times> pystr option) list \<Rightarrow> world \<Rightarrow> world" where
  "write_to_csv movie_infos movie_posters s =
     s\<lparr>douban_csv :=
         Some ((case douban_csv s of None \<Rightarrow> [] | Some rows \<Rightarrow> rows)
               @ csv_rows movie_infos movie_posters)\<rparr>"

text \<open>\<^verbatim>\<open>f"film_img/{name}.jpg"\<close>; \<^verbatim>\<open>None\<close> is formatted as the word.\<close>

definition img_path :: "pystr option \<Rightarrow> pystr" where
  "img_path name =
     ustr ''film_img/'' @ (case name of None \<Rightarrow> ustr ''None'' | Some n \<Rightarrow> n) @ ustr ''.jpg''"

text \<open>
  A failed download is logged and the loop goes on; a file that cannot be opened raises
  \<^verbatim>\<open>OSError\<close>, which is not caught. An uncaught exception comes with the state reached.
\<close>

fun write_to_img ::
    "env \<Rightarrow> (pystr option \<times> pystr option) list \<Rightarrow> world \<Rightarrow> error \<times> world + world" where
  "write_to_img ev [] s = Inr s"
| "write_to_img ev ((name, poster_url) # movie_posters) s =
     (let req = \<lparr>url = poster_url, params = [], headers = []\<rparr>;
          s1 = s\<lparr>sent := sent s @ [req]\<rparr> in
      case requests_get ev s req of
        None \<Rightarrow>
          write_to_img ev movie_posters
            (s1\<lparr>douban_log := douban_log s1 @ [Error_poster poster_url]\<rparr>)
      | Some r \<Rightarrow>
          if can_open ev (img_path name)
          then write_to_img ev movie_posters
                 (s1\<lparr>film_img := (film_img s1)(img_path name \<mapsto> content r)\<rparr>)
          else Inl (OSError, s1))"

section \<open>Orchestrator\<close>

definition handle_one_page :: "env \<Rightarrow> int \<Rightarrow> world \<Rightarrow> error \<times> world + world" where
  "handle_one_page ev page s =
     (case get_soup ev page s of
        (None, s1) \<Rightarrow> Inr s1
      | (Some sp, s1) \<Rightarrow>
          (case get_chinese_items sp of
             Inl e \<Rightarrow> Inl (e, s1)
           | Inr chinese_items \<Rightarrow>
               (case get_movie_infos chinese_items of
                  Inl e \<Rightarrow> Inl (e, s1)
                | Inr movie_infos \<Rightarrow>
                    (case get_movie_posters chinese_items of
                       Inl e \<Rightarrow> Inl (e, s1)
                     | Inr movie_posters \<Rightarrow>
                         (case write_to_img ev movie_posters
                                 (write_to_csv movie_infos movie_posters s1) of
                            Inl es \<Rightarrow> Inl es
                          | Inr s2 \<Rightarrow>
                              Inr (s2\<lparr>douban_log := douban_log s2
                                        @ [Info_page (page + 1) (length chinese_items)]\<rparr>))))))"

definition random_sleep :: "world \<Rightarrow> world" where
  "random_sleep s = s\<lparr>slept := slept s + 1\<rparr>"

text \<open>The loop of lines 213 to 215 over a list of pages.\<close>

fun run_pages :: "env \<Rightarrow> int list \<Rightarrow> world \<Rightarrow> error \<times> world + world" where
  "run_pages ev [] s = Inr s"
| "run_pages ev (page # pages) s =
     (case handle_one_page ev page s of
        Inl es \<Rightarrow> Inl es
      | Inr s1 \<Rightarrow> run_pages ev pages (random_sleep s1))"

text \<open>\<^verbatim>\<open>range(10)\<close>\<close>

definition main_pages :: "int list" where
  "main_pages = [0..9]"

section \<open>Analyzer\<close>

definition py_digit :: "pychar \<Rightarrow> bool" where
  "py_digit c = (48 \<le> c \<and> c \<le> 57)"

text \<open>Digits with single underscores between them.\<close>

fun int_body :: "pystr \<Rightarrow> bool" where
  "int_body [] = False"
| "int_body [c] = py_digit c"
| "int_body (c # d # cs) = (py_digit c \<and> (if d = 95 then int_body cs else int_body (d # cs)))"

definition digits_value :: "pystr \<Rightarrow> int" where
  "digits_value ds = foldl (\<lambda>v c. 10 * v + int (c - 48)) 0 (filter py_digit ds)"

text \<open>
  The whitespace \<^verbatim>\<open>int\<close> drops around a number: that of \<^verbatim>\<open>str.isspace\<close> without
  the four separators U+001C to U+001F.
\<close>

definition int_isspace :: "pychar \<Rightarrow> bool" where
  "int_isspace c = (py_isspace c \<and> (c < 28 \<or> 31 < c))"

text \<open>
  \<^verbatim>\<open>int(s)\<close> on a string: whitespace around it dropped, an optional sign, decimal digits.
  The digits are the ASCII ones; the decimal digits of other scripts, which \<^verbatim>\<open>int\<close>
  reads too, and the interpreter's limit on the number of digits are left out.
\<close>

definition py_int :: "pystr \<Rightarrow> error + int" where
  "py_int s =
     (case rev (dropWhile int_isspace (rev (dropWhile int_isspace s))) of
        [] \<Rightarrow> Inl ValueError
      | c # cs \<Rightarrow>
          if c = 45 then (if int_body cs then Inr (- digits_value cs) else Inl ValueError)
          else if c = 43 then (if int_body cs then Inr (digits_value cs) else Inl ValueError)
          else if int_body (c # cs) then Inr (digits_value (c # cs))
          else Inl ValueError)"

text \<open>The comprehension of line 185: the first row that fails raises.\<close>

fun years_of_rows :: "pystr list list \<Rightarrow> error + int list" where
  "years_of_rows [] = Inr []"
| "years_of_rows (row # rows) =
     (case second row of
        Inl e \<Rightarrow> Inl e
      | Inr field \<Rightarrow>
          (case py_int field of
             Inl e \<Rightarrow> Inl e
           | Inr year \<Rightarrow>
               (case years_of_rows rows of Inl e \<Rightarrow> Inl e | Inr years \<Rightarrow> Inr (year # years))))"

text \<open>
  Lines 182 to 185: open the file, skip the header with \<^verbatim>\<open>next\<close>, read the years.
\<close>

definition read_years :: "world \<Rightarrow> error + int list" where
  "read_years s =
     (case douban_csv s of
        None \<Rightarrow> Inl FileNotFoundError
      | Some [] \<Rightarrow> Inl StopIteration
      | Some (header # rows) \<Rightarrow> years_of_rows rows)"

text \<open>
  \<^verbatim>\<open>Counter(years)\<close> as the list of its items: a \<^verbatim>\<open>dict\<close> keeps its keys in the order
  of first insertion, and counting a key again changes its value in place.
\<close>

fun counter_add :: "(int \<times> nat) list \<Rightarrow> int \<Rightarrow> (int \<times> nat) list" where
  "counter_add [] y = [(y, 1)]"
| "counter_add ((k, n) # kvs) y =
     (if k = y then (k, n + 1) # kvs else (k, n) # counter_add kvs y)"

definition Counter :: "int list \<Rightarrow> (int \<times> nat) list" where
  "Counter years = foldl counter_add [] years"

text \<open>Line 187: the items sorted by key.\<close>

definition sorted_data :: "int list \<Rightarrow> (int \<times> nat) list" where
  "sorted_data years = sort_key fst (Counter years)"

text \<open>
  The plot is kept as the two series handed to \<^verbatim>\<open>plt.plot\<close>; fonts, labels and the
  window are left out.
\<close>

definition analyze_data :: "world \<Rightarrow> error \<times> world + world" where
  "analyze_data s =
     (case read_years s of
        Inl e \<Rightarrow> Inl (e, s)
      | Inr years \<Rightarrow>
          Inr (s\<lparr>douban_png :=
                  Some (map fst (sorted_data years), map snd (sorted_data years))\<rparr>))"

text \<open>
  Lines 212 to 216. The logging set-up and the creation of the image directory come
  before and change nothing that is modelled here.
\<close>

definition main :: "env \<Rightarrow> world \<Rightarrow> error \<times> world + world" where
  "main ev s =
     (case run_pages ev main_pages (write_csv_header s) of
        Inl es \<Rightarrow> Inl es
      | Inr s1 \<Rightarrow> analyze_data s1)"

section \<open>Auxiliary definitions for the statements\<close>

text \<open>The state before the program has run: no file, no log line, no request.\<close>

definition empty_world :: world where
  "empty_world =
     \<lparr>douban_csv = None, film_img = Map.empty, douban_log = [], sent = [], slept = 0,
      douban_png = None\<rparr>"

text \<open>The test of line 78 as a predicate on blocks: false where the paragraph is absent.\<close>

definition has_marker :: "item \<Rightarrow> bool" where
  "has_marker it = (case bd_p_text it of Inl _ \<Rightarrow> False | Inr t \<Rightarrow> py_in marker t)"

text \<open>
  The year as the specification words it, for comparison with \<open>year_of_text\<close>: the text
  split on line breaks, the second line taken, trimmed, its first four characters.
\<close>

definition spec_year_of_text :: "pystr \<Rightarrow> error + pystr" where
  "spec_year_of_text t =
     (case second (py_splitlines t) of
        Inl e \<Rightarrow> Inl e
      | Inr line \<Rightarrow> Inr (take 4 (py_strip line)))"

section \<open>Request parameters\<close>

text \<open>
  C8. For every page index of the loop, 0 to 9, the request that \<open>get_soup\<close> sends for it
  carries the query parameter \<^verbatim>\<open>start\<close> equal to the index times 25.
\<close>

theorem offset_is_page_times_25:
  "page \<in> set main_pages \<Longrightarrow>
     map_of (params (page_request page)) (ustr ''start'') = Some (page * 25)
     \<and> sent (snd (get_soup ev page s)) = sent s @ [page_request page]"
  by (simp add: page_request_def get_params_def get_soup_def Let_def split: option.split)

theorem offset_is_page_times_25_witness:
  "(3::int) \<in> set main_pages
   \<and> map_of (params (page_request 3)) (ustr ''start'') = Some 75
   \<and> sent (snd (get_soup \<lparr>http_get = (\<lambda>_ _. None), can_open = (\<lambda>_. True)\<rparr> 3 empty_world))
       = sent empty_world @ [page_request 3]"
  using offset_is_page_times_25 [of 3 "\<lparr>http_get = (\<lambda>_ _. None), can_open = (\<lambda>_. True)\<rparr>" empty_world]
  by (simp add: main_pages_def)

section \<open>Rows appended to the tabular file\<close>

lemma length_csv_rows:
  "length (csv_rows movie_infos movie_posters)
     = min (length movie_infos) (length movie_posters)"
  by (induction movie_infos movie_posters rule: csv_rows.induct) auto

lemma csv_rows_nth:
  "i < length movie_infos \<Longrightarrow> i < length movie_posters \<Longrightarrow>
     csv_rows movie_infos movie_posters ! i
       = [fst (movie_infos ! i), snd (movie_infos ! i), csv_str (snd (movie_posters ! i))]"
proof (induction movie_infos movie_posters arbitrary: i rule: csv_rows.induct)
  case (1 name year movie_infos uu poster_url movie_posters)
  then show ?case by (cases i) auto
qed auto

lemma csv_rows_by_index:
  "csv_rows movie_infos movie_posters
     = map (\<lambda>i. [fst (movie_infos ! i), snd (movie_infos ! i), csv_str (snd (movie_posters ! i))])
         [0..<min (length movie_infos) (length movie_posters)]"
  by (rule nth_equalityI) (simp_all add: length_csv_rows csv_rows_nth)

text \<open>
  C3. For two lists of equal length, \<open>write_to_csv\<close> appends one row per index to the
  rows already in the file, and row \<open>i\<close> holds the name and the year of the \<open>i\<close>-th entry
  of the first list and the URL of the \<open>i\<close>-th entry of the second (an absent URL as the
  empty field, as \<^verbatim>\<open>csv\<close> writes it); the name in the second list is not used.
\<close>

theorem write_to_csv_rows:
  assumes "length movie_posters = length movie_infos"
  shows "douban_csv (write_to_csv movie_infos movie_posters s)
           = Some ((case douban_csv s of None \<Rightarrow> [] | Some rows \<Rightarrow> rows)
                   @ map (\<lambda>i. [fst (movie_infos ! i), snd (movie_infos ! i),
                                csv_str (snd (movie_posters ! i))])
                       [0..<length movie_infos])"
  using assms by (simp add: write_to_csv_def csv_rows_by_index)

theorem write_to_csv_rows_witness:
  "douban_csv
     (write_to_csv [(ustr ''A'', ustr ''1994''), (ustr ''B'', ustr ''2001'')]
        [(Some (ustr ''X''), Some (ustr ''u1'')), (Some (ustr ''Y''), Some (ustr ''u2''))]
        (write_csv_header empty_world))
   = Some [csv_header, [ustr ''A'', ustr ''1994'', ustr ''u1''],
           [ustr ''B'', ustr ''2001'', ustr ''u2'']]"
  using write_to_csv_rows
          [of "[(Some (ustr ''X''), Some (ustr ''u1'')), (Some (ustr ''Y''), Some (ustr ''u2''))]"
              "[(ustr ''A'', ustr ''1994''), (ustr ''B'', ustr ''2001'')]"
              "write_csv_header empty_world"]
  by (simp add: write_csv_header_def csv_str_def upt_rec)

text \<open>
  C10. For two lists of any lengths, \<open>write_to_csv\<close> returns (it has no failing branch)
  and appends as many rows as the shorter list has entries, built from the entries at
  the same index; the entries of the longer list beyond that are not written.
\<close>

theorem write_to_csv_shorter_list:
  "\<exists>rows.
     douban_csv (write_to_csv movie_infos movie_posters s)
       = Some ((case douban_csv s of None \<Rightarrow> [] | Some old \<Rightarrow> old) @ rows)
     \<and> length rows = min (length movie_infos) (length movie_posters)
     \<and> rows = map (\<lambda>i. [fst (movie_infos ! i), snd (movie_infos ! i),
                         csv_str (snd (movie_posters ! i))])
                [0..<min (length movie_infos) (length movie_posters)]"
  by (simp add: write_to_csv_def length_csv_rows csv_rows_by_index [symmetric])

theorem write_to_csv_shorter_list_witness:
  "\<exists>rows.
     douban_csv
       (write_to_csv [(ustr ''A'', ustr ''1994''), (ustr ''B'', ustr ''2001'')]
          [(Some (ustr ''X''), Some (ustr ''u1''))] empty_world)
       = Some rows
     \<and> length rows = 1
     \<and> rows = [[ustr ''A'', ustr ''1994'', ustr ''u1'']]"
  using write_to_csv_shorter_list
          [of "[(ustr ''A'', ustr ''1994''), (ustr ''B'', ustr ''2001'')]"
              "[(Some (ustr ''X''), Some (ustr ''u1''))]" empty_world]
  by (simp add: empty_world_def csv_str_def)

section \<open>Histogram\<close>

lemma counter_add_keys:
  "map fst (counter_add kvs y) = (if y \<in> set (map fst kvs) then map fst kvs else map fst kvs @ [y])"
  by (induction kvs y rule: counter_add.induct) auto

lemma counter_add_lookup:
  "map_of (counter_add kvs y) k =
     (if k = y then Some (case map_of kvs y of None \<Rightarrow> 1 | Some n \<Rightarrow> n + 1) else map_of kvs k)"
  by (induction kvs y rule: counter_add.induct) auto

lemma counter_add_distinct:
  "distinct (map fst kvs) \<Longrightarrow> distinct (map fst (counter_add kvs y))"
  by (simp add: counter_add_keys)

lemma foldl_counter_add:
  "distinct (map fst acc) \<Longrightarrow>
     distinct (map fst (foldl counter_add acc years))
     \<and> set (map fst (foldl counter_add acc years)) = set (map fst acc) \<union> set years
     \<and> (\<forall>k. map_of (foldl counter_add acc years) k =
            (case map_of acc k of
               None \<Rightarrow> if k \<in> set years then Some (count_list years k) else None
             | Some n \<Rightarrow> Some (n + count_list years k)))"
proof (induction years arbitrary: acc)
  case Nil
  then show ?case by (auto split: option.split)
next
  case (Cons y years)
  have d: "distinct (map fst (counter_add acc y))"
    using Cons.prems by (rule counter_add_distinct)
  note ih = Cons.IH [OF d]
  show ?case
  proof (intro conjI allI)
    show "distinct (map fst (foldl counter_add acc (y # years)))"
      using ih by simp
    show "set (map fst (foldl counter_add acc (y # years))) = set (map fst acc) \<union> set (y # years)"
      using ih by (auto simp: counter_add_keys split: if_splits)
    fix k
    show "map_of (foldl counter_add acc (y # years)) k =
            (case map_of acc k of
               None \<Rightarrow> if k \<in> set (y # years) then Some (count_list (y # years) k) else None
             | Some n \<Rightarrow> Some (n + count_list (y # years) k))"
      using ih by (auto simp: counter_add_lookup split: option.split)
  qed
qed

lemma Counter_keys: "distinct (map fst (Counter years))" "set (map fst (Counter years)) = set years"
  using foldl_counter_add [of "[]" years] by (simp_all add: Counter_def)

lemma Counter_lookup:
  "map_of (Counter years) k = (if k \<in> set years then Some (count_list years k) else None)"
  using foldl_counter_add [of "[]" years] by (simp add: Counter_def)

lemma Counter_values: "(k, n) \<in> set (Counter years) \<Longrightarrow> n = count_list years k"
  using Counter_lookup [of years k] Counter_keys(1) [of years]
  by (auto simp: split: if_splits)

lemma pairs_from_keys:
  "(\<And>k n. (k, n) \<in> set l \<Longrightarrow> n = f k) \<Longrightarrow> l = map (\<lambda>k. (k, f k)) (map fst l)"
  by (induction l) auto

lemma sorted_data_keys: "map fst (sorted_data years) = sorted_list_of_set (set years)"
proof (rule sorted_distinct_set_unique)
  show "sorted (map fst (sorted_data years))"
    by (simp add: sorted_data_def)
  have "mset (map fst (sorted_data years)) = mset (map fst (Counter years))"
    by (simp add: sorted_data_def)
  then show "distinct (map fst (sorted_data years))"
    using Counter_keys(1) [of years] by (metis mset_eq_imp_distinct_iff)
  show "set (map fst (sorted_data years)) = set (sorted_list_of_set (set years))"
    using Counter_keys(2) [of years] by (simp add: sorted_data_def)
qed simp_all

text \<open>
  C7. The histogram holds, for each distinct year of the input, the number of records with
  that year, in ascending order of the year; for the years 2001, 2001, 2003 it is
  \<open>[(2001, 2), (2003, 1)]\<close>.
\<close>

theorem histogram_counts_sorted:
  "sorted_data years = map (\<lambda>y. (y, count_list years y)) (sorted_list_of_set (set years))
   \<and> sorted_wrt (<) (map fst (sorted_data years))
   \<and> sorted_data [2001, 2001, 2003] = [(2001, 2), (2003, 1)]"
proof (intro conjI)
  have "sorted_data years = map (\<lambda>k. (k, count_list years k)) (map fst (sorted_data years))"
    by (rule pairs_from_keys) (simp add: sorted_data_def Counter_values)
  then show "sorted_data years = map (\<lambda>y. (y, count_list years y)) (sorted_list_of_set (set years))"
    by (simp only: sorted_data_keys)
  show "sorted_wrt (<) (map fst (sorted_data years))"
    by (simp add: sorted_data_keys)
  show "sorted_data [2001, 2001, 2003] = [(2001, 2), (2003, 1)]"
    by (simp add: sorted_data_def Counter_def)
qed

section \<open>Page filter: what is retained\<close>

lemma py_in_sublist: "py_in sub s \<longleftrightarrow> sublist sub s"
  by (induction s) (auto simp: sublist_Cons_right)

lemma has_marker_text: "bd_p_text it = Inr t \<Longrightarrow> has_marker it = py_in marker t"
  by (simp add: has_marker_def)

lemma has_marker_iff: "has_marker it \<longleftrightarrow> (\<exists>t. bd_p_text it = Inr t \<and> sublist marker t)"
  by (cases "bd_p_text it") (simp_all add: has_marker_def py_in_sublist)

lemma chinese_items_loop_returns:
  "(\<And>it. it \<in> set items \<Longrightarrow> \<exists>t. bd_p_text it = Inr t) \<Longrightarrow>
     chinese_items_loop acc items = Inr (acc @ filter has_marker items)"
proof (induction items arbitrary: acc)
  case Nil
  then show ?case by simp
next
  case (Cons it items)
  obtain t where t: "bd_p_text it = Inr t"
    using Cons.prems [of it] by auto
  have ih: "chinese_items_loop (if py_in marker t then acc @ [it] else acc) items
          = Inr ((if py_in marker t then acc @ [it] else acc) @ filter has_marker items)"
    by (rule Cons.IH) (simp add: Cons.prems)
  show ?case
    by (simp add: t ih has_marker_text [OF t])
qed

lemma chinese_items_loop_texts:
  "chinese_items_loop acc items = Inr out \<Longrightarrow> it \<in> set items \<Longrightarrow> \<exists>t. bd_p_text it = Inr t"
proof (induction items arbitrary: acc)
  case Nil
  then show ?case by simp
next
  case (Cons a items)
  show ?case
  proof (cases "bd_p_text a")
    case (Inl e)
    with Cons.prems(1) show ?thesis by simp
  next
    case (Inr t)
    with Cons.prems(1)
    have rest: "chinese_items_loop (if py_in marker t then acc @ [a] else acc) items = Inr out"
      by simp
    show ?thesis
    proof (cases "it = a")
      case True
      with Inr show ?thesis by simp
    next
      case False
      with Cons.prems(2) have "it \<in> set items" by simp
      with rest show ?thesis by (rule Cons.IH)
    qed
  qed
qed

lemma get_chinese_items_iff:
  "get_chinese_items sp = Inr out \<longleftrightarrow>
     (\<forall>it \<in> set (find_all_item sp). \<exists>t. bd_p_text it = Inr t)
     \<and> out = filter has_marker (find_all_item sp)"
proof
  assume run: "get_chinese_items sp = Inr out"
  then have texts: "\<forall>it \<in> set (find_all_item sp). \<exists>t. bd_p_text it = Inr t"
    unfolding get_chinese_items_def by (blast dest: chinese_items_loop_texts)
  then have "get_chinese_items sp = Inr (filter has_marker (find_all_item sp))"
    unfolding get_chinese_items_def by (simp add: chinese_items_loop_returns)
  with run texts
  show "(\<forall>it \<in> set (find_all_item sp). \<exists>t. bd_p_text it = Inr t)
          \<and> out = filter has_marker (find_all_item sp)"
    by simp
next
  assume "(\<forall>it \<in> set (find_all_item sp). \<exists>t. bd_p_text it = Inr t)
          \<and> out = filter has_marker (find_all_item sp)"
  then show "get_chinese_items sp = Inr out"
    unfolding get_chinese_items_def by (simp add: chinese_items_loop_returns)
qed

lemma bd_p_text_cong: "div_bd a = div_bd b \<Longrightarrow> bd_p_text a = bd_p_text b"
  by (simp add: bd_p_text_def)

lemma has_marker_cong: "div_bd a = div_bd b \<Longrightarrow> has_marker a = has_marker b"
  using bd_p_text_cong [of a b] by (simp add: has_marker_def)

lemma filter_same_positions:
  "map div_bd items' = map div_bd items \<Longrightarrow>
     filter has_marker items' = map snd (filter (\<lambda>p. has_marker (fst p)) (zip items items'))"
proof (induction items arbitrary: items')
  case Nil
  then show ?case by simp
next
  case (Cons a items)
  then obtain b rest where items': "items' = b # rest"
    by (cases items') auto
  with Cons.prems have eq: "div_bd b = div_bd a" and rest: "map div_bd rest = map div_bd items"
    by auto
  have "has_marker b = has_marker a"
    using eq by (rule has_marker_cong)
  then show ?case
    using Cons.IH [OF rest] items' by simp
qed

lemma texts_same_positions:
  assumes same: "map div_bd items' = map div_bd items"
      and texts: "\<forall>it \<in> set items. \<exists>t. bd_p_text it = Inr t"
  shows "\<forall>it \<in> set items'. \<exists>t. bd_p_text it = Inr t"
proof
  fix b assume "b \<in> set items'"
  then obtain i where i: "i < length items'" "items' ! i = b"
    by (auto simp: in_set_conv_nth)
  have len: "length items' = length items"
    using same by (rule map_eq_imp_length_eq)
  have "map div_bd items' ! i = map div_bd items ! i"
    using same by simp
  then have "div_bd (items' ! i) = div_bd (items ! i)"
    using i(1) len by simp
  then have "bd_p_text (items' ! i) = bd_p_text (items ! i)"
    by (rule bd_p_text_cong)
  then have "bd_p_text b = bd_p_text (items ! i)"
    using i(2) by simp
  moreover have "items ! i \<in> set items"
    using i(1) len by simp
  ultimately show "\<exists>t. bd_p_text b = Inr t"
    using texts by auto
qed

text \<open>
  C4. When the filter returns, its output is the sub-list of the document's item blocks
  whose paragraph text contains the marker: every block of the output has the marker in
  its text, every block of the document with the marker in its text is in the output, the
  document order is kept, and which positions are retained depends on the paragraphs
  alone (blocks that differ anywhere else are retained at the same positions).
\<close>

theorem filter_keeps_marked_blocks:
  assumes "get_chinese_items sp = Inr out"
  shows "out = filter has_marker (find_all_item sp)
         \<and> (\<forall>it \<in> set out. \<exists>t. bd_p_text it = Inr t \<and> sublist marker t)
         \<and> (\<forall>it \<in> set (find_all_item sp).
               (\<exists>t. bd_p_text it = Inr t \<and> sublist marker t) \<longrightarrow> it \<in> set out)
         \<and> subseq out (find_all_item sp)
         \<and> (\<forall>items'. map div_bd items' = map div_bd (find_all_item sp) \<longrightarrow>
               get_chinese_items (Soup items')
                 = Inr (map snd (filter (\<lambda>p. has_marker (fst p)) (zip (find_all_item sp) items'))))"
proof -
  from assms have texts: "\<forall>it \<in> set (find_all_item sp). \<exists>t. bd_p_text it = Inr t"
    and out: "out = filter has_marker (find_all_item sp)"
    by (simp_all add: get_chinese_items_iff)
  have marked: "\<forall>it \<in> set out. \<exists>t. bd_p_text it = Inr t \<and> sublist marker t"
    using out by (simp add: has_marker_iff)
  have all_kept: "\<forall>it \<in> set (find_all_item sp).
               (\<exists>t. bd_p_text it = Inr t \<and> sublist marker t) \<longrightarrow> it \<in> set out"
    using out by (simp add: has_marker_iff)
  have order: "subseq out (find_all_item sp)"
    using out by simp
  have other: "get_chinese_items (Soup items')
                 = Inr (map snd (filter (\<lambda>p. has_marker (fst p)) (zip (find_all_item sp) items')))"
    if same: "map div_bd items' = map div_bd (find_all_item sp)" for items'
  proof -
    have "\<forall>it \<in> set (find_all_item (Soup items')). \<exists>t. bd_p_text it = Inr t"
      using texts_same_positions [OF same texts] by simp
    moreover have "map snd (filter (\<lambda>p. has_marker (fst p)) (zip (find_all_item sp) items'))
                     = filter has_marker (find_all_item (Soup items'))"
      using filter_same_positions [OF same] by simp
    ultimately show ?thesis
      by (simp only: get_chinese_items_iff)
  qed
  show ?thesis
  proof (intro conjI allI impI)
    show "out = filter has_marker (find_all_item sp)" by (rule out)
    show "\<forall>it \<in> set out. \<exists>t. bd_p_text it = Inr t \<and> sublist marker t" by (rule marked)
    show "\<forall>it \<in> set (find_all_item sp).
            (\<exists>t. bd_p_text it = Inr t \<and> sublist marker t) \<longrightarrow> it \<in> set out"
      by (rule all_kept)
    show "subseq out (find_all_item sp)" by (rule order)
    fix items' :: "item list"
    assume "map div_bd items' = map div_bd (find_all_item sp)"
    then show "get_chinese_items (Soup items')
                 = Inr (map snd (filter (\<lambda>p. has_marker (fst p)) (zip (find_all_item sp) items')))"
      by (rule other)
  qed
qed

text \<open>
  C9. The filter is idempotent: run on a list that is its own output, it returns that list.
\<close>

theorem filter_idempotent:
  assumes "get_chinese_items sp = Inr out"
  shows "get_chinese_items (Soup out) = Inr out"
proof -
  from assms have texts: "\<forall>it \<in> set (find_all_item sp). \<exists>t. bd_p_text it = Inr t"
    and out: "out = filter has_marker (find_all_item sp)"
    by (simp_all add: get_chinese_items_iff)
  have "\<forall>it \<in> set (find_all_item (Soup out)). \<exists>t. bd_p_text it = Inr t"
    using texts out by simp
  moreover have "out = filter has_marker (find_all_item (Soup out))"
    using out by simp
  ultimately show ?thesis
    by (simp only: get_chinese_items_iff)
qed

theorem filter_keeps_marked_blocks_witness:
  "get_chinese_items
     (Soup [\<lparr>div_hd = None, div_bd = Some (BdDiv (Some (ustr ''1994 / '' @ marker))), div_pic = None\<rparr>,
            \<lparr>div_hd = None, div_bd = Some (BdDiv (Some (ustr ''1994 / USA''))), div_pic = None\<rparr>,
            \<lparr>div_hd = None, div_bd = Some (BdDiv (Some (marker @ ustr '' 2002''))), div_pic = None\<rparr>])
   = Inr [\<lparr>div_hd = None, div_bd = Some (BdDiv (Some (ustr ''1994 / '' @ marker))), div_pic = None\<rparr>,
          \<lparr>div_hd = None, div_bd = Some (BdDiv (Some (marker @ ustr '' 2002''))), div_pic = None\<rparr>]
   \<and> subseq
       [\<lparr>div_hd = None, div_bd = Some (BdDiv (Some (ustr ''1994 / '' @ marker))), div_pic = None\<rparr>,
        \<lparr>div_hd = None, div_bd = Some (BdDiv (Some (marker @ ustr '' 2002''))), div_pic = None\<rparr>]
       (find_all_item
         (Soup [\<lparr>div_hd = None, div_bd = Some (BdDiv (Some (ustr ''1994 / '' @ marker))), div_pic = None\<rparr>,
            \<lparr>div_hd = None, div_bd = Some (BdDiv (Some (ustr ''1994 / USA''))), div_pic = None\<rparr>,
            \<lparr>div_hd = None, div_bd = Some (BdDiv (Some (marker @ ustr '' 2002''))), div_pic = None\<rparr>]))"
proof -
  have run: "get_chinese_items
     (Soup [\<lparr>div_hd = None, div_bd = Some (BdDiv (Some (ustr ''1994 / '' @ marker))), div_pic = None\<rparr>,
            \<lparr>div_hd = None, div_bd = Some (BdDiv (Some (ustr ''1994 / USA''))), div_pic = None\<rparr>,
            \<lparr>div_hd = None, div_bd = Some (BdDiv (Some (marker @ ustr '' 2002''))), div_pic = None\<rparr>])
   = Inr [\<lparr>div_hd = None, div_bd = Some (BdDiv (Some (ustr ''1994 / '' @ marker))), div_pic = None\<rparr>,
          \<lparr>div_hd = None, div_bd = Some (BdDiv (Some (marker @ ustr '' 2002''))), div_pic = None\<rparr>]"
    by (simp add: get_chinese_items_def bd_p_text_def marker_def ustr_def)
  from filter_keeps_marked_blocks [OF run] run show ?thesis
    by blast
qed

theorem filter_idempotent_witness:
  "get_chinese_items
     (Soup [\<lparr>div_hd = None, div_bd = Some (BdDiv (Some (ustr ''USA''))), div_pic = None\<rparr>,
            \<lparr>div_hd = None, div_bd = Some (BdDiv (Some (20013 # 22269 # ustr '' 1993''))), div_pic = None\<rparr>])
   = Inr [\<lparr>div_hd = None, div_bd = Some (BdDiv (Some (20013 # 22269 # ustr '' 1993''))), div_pic = None\<rparr>]
   \<and> get_chinese_items
       (Soup [\<lparr>div_hd = None, div_bd = Some (BdDiv (Some (20013 # 22269 # ustr '' 1993''))), div_pic = None\<rparr>])
     = Inr [\<lparr>div_hd = None, div_bd = Some (BdDiv (Some (20013 # 22269 # ustr '' 1993''))), div_pic = None\<rparr>]"
proof -
  have run: "get_chinese_items
     (Soup [\<lparr>div_hd = None, div_bd = Some (BdDiv (Some (ustr ''USA''))), div_pic = None\<rparr>,
            \<lparr>div_hd = None, div_bd = Some (BdDiv (Some (20013 # 22269 # ustr '' 1993''))), div_pic = None\<rparr>])
   = Inr [\<lparr>div_hd = None, div_bd = Some (BdDiv (Some (20013 # 22269 # ustr '' 1993''))), div_pic = None\<rparr>]"
    by (simp add: get_chinese_items_def bd_p_text_def marker_def ustr_def)
  from run filter_idempotent [OF run] show ?thesis
    by (rule conjI)
qed

section \<open>Field extractor: results\<close>

lemma second_iff: "second xs = Inr x \<longleftrightarrow> 1 < length xs \<and> x = xs ! 1"
  by (cases xs; cases "tl xs") (auto simp: second_def)

lemma movie_infos_loop_iff:
  "movie_infos_loop acc items = Inr infos \<longleftrightarrow>
     (\<exists>ps. map movie_info items = map Inr ps \<and> infos = acc @ ps)"
proof (induction items arbitrary: acc)
  case Nil
  then show ?case by auto
next
  case (Cons it items)
  show ?case
  proof (cases "movie_info it")
    case (Inl e)
    then show ?thesis by (auto simp: Cons_eq_map_conv)
  next
    case (Inr p)
    have "movie_infos_loop acc (it # items) = Inr infos
            \<longleftrightarrow> (\<exists>ps. map movie_info items = map Inr ps \<and> infos = (acc @ [p]) @ ps)"
      using Inr Cons.IH [of "acc @ [p]"] by simp
    also have "\<dots> \<longleftrightarrow> (\<exists>ps. map movie_info (it # items) = map Inr ps \<and> infos = acc @ ps)"
      using Inr by (auto simp: Cons_eq_map_conv)
    finally show ?thesis .
  qed
qed

lemma get_movie_infos_iff:
  "get_movie_infos items = Inr infos \<longleftrightarrow> map movie_info items = map Inr infos"
  by (auto simp: get_movie_infos_def movie_infos_loop_iff)

lemma movie_posters_loop_iff:
  "movie_posters_loop acc items = Inr posters \<longleftrightarrow>
     (\<exists>ps. map movie_poster items = map Inr ps \<and> posters = acc @ ps)"
proof (induction items arbitrary: acc)
  case Nil
  then show ?case by auto
next
  case (Cons it items)
  show ?case
  proof (cases "movie_poster it")
    case (Inl e)
    then show ?thesis by (auto simp: Cons_eq_map_conv)
  next
    case (Inr p)
    have "movie_posters_loop acc (it # items) = Inr posters
            \<longleftrightarrow> (\<exists>ps. map movie_poster items = map Inr ps \<and> posters = (acc @ [p]) @ ps)"
      using Inr Cons.IH [of "acc @ [p]"] by simp
    also have "\<dots> \<longleftrightarrow> (\<exists>ps. map movie_poster (it # items) = map Inr ps \<and> posters = acc @ ps)"
      using Inr by (auto simp: Cons_eq_map_conv)
    finally show ?thesis .
  qed
qed

lemma get_movie_posters_iff:
  "get_movie_posters items = Inr posters \<longleftrightarrow> map movie_poster items = map Inr posters"
  by (auto simp: get_movie_posters_def movie_posters_loop_iff)

lemma map_Inr_nth:
  "map f items = map Inr rs \<Longrightarrow> i < length items \<Longrightarrow> f (items ! i) = Inr (rs ! i)"
  by (metis length_map nth_map)

lemma map_Inr_exists:
  "(\<And>x. x \<in> set items \<Longrightarrow> \<exists>r. f x = Inr r) \<Longrightarrow> \<exists>rs. map f items = map Inr rs"
proof (induction items)
  case Nil
  then show ?case by simp
next
  case (Cons a items)
  then obtain r rs where "f a = Inr r" "map f items = map Inr rs"
    by (metis list.set_intros(1) list.set_intros(2))
  then have "map f (a # items) = map Inr (r # rs)" by simp
  then show ?case by blast
qed

text \<open>
  C2, as amended. \<open>get_movie_infos\<close> returns a list exactly when the lookups of the loop
  body succeed on every block, \<open>get_movie_posters\<close> likewise, and a returned list holds
  the tuple of each block at the block's position; so when both return, both lengths are
  the length of the input. On a block where a lookup fails the function raises and returns
  no list.
\<close>

theorem extractors_one_tuple_per_block:
  "(get_movie_infos items = Inr infos \<longleftrightarrow> map movie_info items = map Inr infos)
   \<and> (get_movie_posters items = Inr posters \<longleftrightarrow> map movie_poster items = map Inr posters)
   \<and> (get_movie_infos items = Inr infos \<longrightarrow> length infos = length items)
   \<and> (get_movie_posters items = Inr posters \<longrightarrow> length posters = length items)
   \<and> ((\<forall>it \<in> set items. \<exists>p. movie_info it = Inr p) \<longrightarrow> (\<exists>r. get_movie_infos items = Inr r))
   \<and> ((\<forall>it \<in> set items. \<exists>q. movie_poster it = Inr q) \<longrightarrow> (\<exists>r. get_movie_posters items = Inr r))"
proof (intro conjI impI)
  show "get_movie_infos items = Inr infos \<longleftrightarrow> map movie_info items = map Inr infos"
    by (rule get_movie_infos_iff)
  show "get_movie_posters items = Inr posters \<longleftrightarrow> map movie_poster items = map Inr posters"
    by (rule get_movie_posters_iff)
  show "length infos = length items" if "get_movie_infos items = Inr infos"
    using that by (metis get_movie_infos_iff length_map)
  show "length posters = length items" if "get_movie_posters items = Inr posters"
    using that by (metis get_movie_posters_iff length_map)
  show "\<exists>r. get_movie_infos items = Inr r" if "\<forall>it \<in> set items. \<exists>p. movie_info it = Inr p"
    using map_Inr_exists [of items movie_info] that by (simp add: get_movie_infos_iff)
  show "\<exists>r. get_movie_posters items = Inr r" if "\<forall>it \<in> set items. \<exists>q. movie_poster it = Inr q"
    using map_Inr_exists [of items movie_poster] that by (simp add: get_movie_posters_iff)
qed

theorem extractors_one_tuple_per_block_witness:
  "get_movie_infos
     [\<lparr>div_hd = Some (HdDiv (Some (ustr ''A''))),
       div_bd = Some (BdDiv (Some (10 # ustr ''dir'' @ 10 # ustr ''1994 / '' @ marker))),
       div_pic = Some (PicDiv (Some (ImgTag (Some (ustr ''A'')) (Some (ustr ''u1'')))))\<rparr>,
      \<lparr>div_hd = Some (HdDiv (Some (ustr ''B''))),
       div_bd = Some (BdDiv (Some (ustr ''dir'' @ 10 # ustr '' 2001 / '' @ marker))),
       div_pic = Some (PicDiv (Some (ImgTag None (Some (ustr ''u2'')))))\<rparr>]
   = Inr [(ustr ''A'', ustr ''1994''), (ustr ''B'', ustr ''2001'')]
   \<and> get_movie_posters
     [\<lparr>div_hd = Some (HdDiv (Some (ustr ''A''))),
       div_bd = Some (BdDiv (Some (10 # ustr ''dir'' @ 10 # ustr ''1994 / '' @ marker))),
       div_pic = Some (PicDiv (Some (ImgTag (Some (ustr ''A'')) (Some (ustr ''u1'')))))\<rparr>,
      \<lparr>div_hd = Some (HdDiv (Some (ustr ''B''))),
       div_bd = Some (BdDiv (Some (ustr ''dir'' @ 10 # ustr '' 2001 / '' @ marker))),
       div_pic = Some (PicDiv (Some (ImgTag None (Some (ustr ''u2'')))))\<rparr>]
   = Inr [(Some (ustr ''A''), Some (ustr ''u1'')), (None, Some (ustr ''u2''))]"
  using extractors_one_tuple_per_block
    [of "[\<lparr>div_hd = Some (HdDiv (Some (ustr ''A''))),
       div_bd = Some (BdDiv (Some (10 # ustr ''dir'' @ 10 # ustr ''1994 / '' @ marker))),
       div_pic = Some (PicDiv (Some (ImgTag (Some (ustr ''A'')) (Some (ustr ''u1'')))))\<rparr>,
      \<lparr>div_hd = Some (HdDiv (Some (ustr ''B''))),
       div_bd = Some (BdDiv (Some (ustr ''dir'' @ 10 # ustr '' 2001 / '' @ marker))),
       div_pic = Some (PicDiv (Some (ImgTag None (Some (ustr ''u2'')))))\<rparr>]"
      "[(ustr ''A'', ustr ''1994''), (ustr ''B'', ustr ''2001'')]"
      "[(Some (ustr ''A''), Some (ustr ''u1'')), (None, Some (ustr ''u2''))]"]
  by (simp add: movie_info_def movie_poster_def hd_title_text_def bd_p_text_def pic_img_def
        year_of_text_def py_strip_def py_splitlines_def py_isspace_def py_linebreak_def
        second_def ustr_def marker_def)

theorem extractor_raises_on_filtered_list:
  "get_chinese_items
     (Soup [\<lparr>div_hd = Some (HdDiv (Some (ustr ''T''))),
             div_bd = Some (BdDiv (Some [20013, 22269])),
             div_pic = Some (PicDiv (Some (ImgTag (Some (ustr ''T'')) (Some (ustr ''u'')))))\<rparr>])
   = Inr [\<lparr>div_hd = Some (HdDiv (Some (ustr ''T''))),
             div_bd = Some (BdDiv (Some [20013, 22269])),
             div_pic = Some (PicDiv (Some (ImgTag (Some (ustr ''T'')) (Some (ustr ''u'')))))\<rparr>]
   \<and> get_movie_infos
       [\<lparr>div_hd = Some (HdDiv (Some (ustr ''T''))),
             div_bd = Some (BdDiv (Some [20013, 22269])),
             div_pic = Some (PicDiv (Some (ImgTag (Some (ustr ''T'')) (Some (ustr ''u'')))))\<rparr>]
     = Inl IndexError"
  by (simp add: get_chinese_items_def get_movie_infos_def movie_info_def hd_title_text_def
        bd_p_text_def year_of_text_def py_strip_def py_splitlines_def py_isspace_def
        py_linebreak_def second_def ustr_def marker_def)

lemma year_of_text_iff:
  "year_of_text t = Inr year \<longleftrightarrow>
     1 < length (py_splitlines (py_strip t))
     \<and> year = take 4 (py_strip (py_splitlines (py_strip t) ! 1))"
proof (cases "second (py_splitlines (py_strip t))")
  case (Inl e)
  moreover from Inl have "\<not> 1 < length (py_splitlines (py_strip t))"
    using second_iff [of "py_splitlines (py_strip t)"] by (cases "1 < length (py_splitlines (py_strip t))") auto
  ultimately show ?thesis by (simp add: year_of_text_def)
next
  case (Inr line)
  then have "1 < length (py_splitlines (py_strip t))" "line = py_splitlines (py_strip t) ! 1"
    by (simp_all add: second_iff)
  with Inr show ?thesis by (auto simp: year_of_text_def)
qed

lemma movie_info_year:
  assumes "movie_info it = Inr p"
  shows "\<exists>t. bd_p_text it = Inr t \<and> year_of_text t = Inr (snd p)"
proof (cases "hd_title_text it")
  case (Inl e)
  with assms show ?thesis by (simp add: movie_info_def)
next
  case name: (Inr name)
  show ?thesis
  proof (cases "bd_p_text it")
    case (Inl e)
    with assms name show ?thesis by (simp add: movie_info_def)
  next
    case ptext: (Inr t)
    show ?thesis
    proof (cases "year_of_text t")
      case (Inl e)
      with assms name ptext show ?thesis by (simp add: movie_info_def)
    next
      case (Inr year)
      with assms name ptext have "p = (name, year)" by (simp add: movie_info_def)
      with ptext Inr show ?thesis by simp
    qed
  qed
qed

text \<open>
  C1, as amended. For every block of a list on which \<open>get_movie_infos\<close> returns, the
  year of the block's tuple is computed from the block's paragraph text alone: the text
  trimmed, split on line breaks, the second line taken (there is one), trimmed, and its
  first four characters sliced.
\<close>

theorem year_from_trimmed_text:
  assumes "get_movie_infos items = Inr infos" and "i < length items"
  shows "\<exists>t. bd_p_text (items ! i) = Inr t
           \<and> 1 < length (py_splitlines (py_strip t))
           \<and> snd (infos ! i) = take 4 (py_strip (py_splitlines (py_strip t) ! 1))"
proof -
  from assms(1) have "map movie_info items = map Inr infos"
    by (simp add: get_movie_infos_iff)
  then have "movie_info (items ! i) = Inr (infos ! i)"
    using assms(2) by (rule map_Inr_nth)
  then obtain t where "bd_p_text (items ! i) = Inr t" "year_of_text t = Inr (snd (infos ! i))"
    using movie_info_year by blast
  then show ?thesis
    by (auto simp: year_of_text_iff)
qed

theorem year_from_trimmed_text_witness:
  "\<exists>t. bd_p_text
          ([\<lparr>div_hd = Some (HdDiv (Some (ustr ''A''))),
             div_bd = Some (BdDiv (Some (10 # ustr ''  dir'' @ 10 # ustr ''  1994 / US'' @ [10]))),
             div_pic = None\<rparr>] ! 0) = Inr t
     \<and> 1 < length (py_splitlines (py_strip t))
     \<and> snd ([(ustr ''A'', ustr ''1994'')] ! 0) = take 4 (py_strip (py_splitlines (py_strip t) ! 1))"
proof -
  have run: "get_movie_infos
     [\<lparr>div_hd = Some (HdDiv (Some (ustr ''A''))),
       div_bd = Some (BdDiv (Some (10 # ustr ''  dir'' @ 10 # ustr ''  1994 / US'' @ [10]))),
       div_pic = None\<rparr>]
     = Inr [(ustr ''A'', ustr ''1994'')]"
    by (simp add: get_movie_infos_def movie_info_def hd_title_text_def bd_p_text_def
          year_of_text_def py_strip_def py_splitlines_def py_isspace_def py_linebreak_def
          second_def ustr_def)
  show ?thesis
    by (rule year_from_trimmed_text [OF run]) simp
qed

theorem year_not_from_untrimmed_text:
  "get_movie_infos
     [\<lparr>div_hd = Some (HdDiv (Some (ustr ''A''))),
       div_bd = Some (BdDiv (Some (10 # ustr ''  dir'' @ 10 # ustr ''  1994 / US'' @ [10]))),
       div_pic = None\<rparr>]
     = Inr [(ustr ''A'', ustr ''1994'')]
   \<and> spec_year_of_text (10 # ustr ''  dir'' @ 10 # ustr ''  1994 / US'' @ [10])
     = Inr (ustr ''dir'')
   \<and> ustr ''1994'' \<noteq> ustr ''dir''"
  by (simp add: get_movie_infos_def movie_info_def hd_title_text_def bd_p_text_def
        year_of_text_def spec_year_of_text_def py_strip_def py_splitlines_def py_isspace_def
        py_linebreak_def second_def ustr_def)

section \<open>Round trip through the tabular file\<close>













section \<open>Failure isolation in the page loop\<close>











end
